theory Spec2Isabelle
  imports Main "HOL-Library.Signed_Division"
begin

section \<open>The connection actor of the publish/subscribe hub (client.go)\<close>

text \<open>
  The development follows \<^verbatim>\<open>client.go\<close>. A client is one websocket connection. Its
  inbound pump \<^verbatim>\<open>listenRead\<close> turns frames into intents for the Hub, its outbound
  pump \<^verbatim>\<open>listenWrite\<close> drains the send channel to the wire, and \<^verbatim>\<open>close\<close>
  releases the transport and the send channel behind a boolean guard.

  Everything a function does beyond changing the client record is recorded as a list
  of effects in program order: a send on one of the Hub's channels, a call of a
  websocket method, a log line. What the outside world answers (the result of a read,
  of a JSON decode, of closing the websocket) is an argument of the function.
\<close>

subsection \<open>Tunable parameters\<close>

text \<open>
  \<^verbatim>\<open>time.Duration\<close> is a signed 64-bit count of nanoseconds. The values are kept as
  integers, with Go's division, which truncates towards zero; \<open>int64\<close> states that
  a value is in the range of the machine type, so that no operation wraps.
\<close>

type_synonym Duration = int

definition int64 :: "int \<Rightarrow> bool" where
  "int64 x = (- (2 ^ 63) \<le> x \<and> x < 2 ^ 63)"

definition Second :: Duration where
  "Second = 1000000000"

definition writeWait :: Duration where
  "writeWait = 10 * Second"

definition pongWait :: Duration where
  "pongWait = 30 * Second"

definition pingPeriod :: Duration where
  "pingPeriod = (pongWait * 9) sdiv 10"

definition maxMessageSize :: int where
  "maxMessageSize = 512"

subsection \<open>Data\<close>

text \<open>
  A subscription pairs a topic with a client. The Go field is a pointer to the client;
  the record holds the client's ID.
\<close>

record Subscription =
  Topic :: string
  Client :: string

text \<open>A channel as far as this file uses it: its buffer capacity and whether it was closed.\<close>

record chan =
  capacity :: nat
  is_closed :: bool

definition make_chan :: "nat \<Rightarrow> chan" where
  "make_chan n = \<lparr>capacity = n, is_closed = False\<rparr>"

text \<open>
  The client. The fields \<^verbatim>\<open>ws\<close> and \<^verbatim>\<open>hub\<close> are handles of objects outside this
  file; calls on them are effects.
\<close>

record Client =
  ID :: string
  closed :: bool
  send :: chan
  Topics :: "string list"

datatype message_type = TextMessage | CloseMessage | PingMessage

text \<open>
  The effects. \<open>'m\<close> is the type of a decoded publish message, which is declared
  outside this file.
\<close>

datatype 'm effect =
    Log string
  | Send_subscribe Subscription
  | Send_unsubscribe Subscription
  | Send_unregister string
  | Hub_Publish 'm
  | Ws_Close
  | Close_send
  | Ws_SetReadLimit int
  | Ws_SetReadDeadline Duration
  | Ws_SetPongHandler Duration
  | Ws_SetWriteDeadline Duration
  | Ws_WriteMessage message_type string
  | NewTicker Duration
  | Ticker_Stop

datatype panic = Close_of_closed_channel

subsection \<open>Creating a client, and its topic list\<close>

definition NewClient :: "string \<Rightarrow> Client" where
  "NewClient cid = \<lparr>ID = cid, closed = False, send = make_chan 256, Topics = []\<rparr>"

definition AddTopic :: "Client \<Rightarrow> string \<Rightarrow> Client" where
  "AddTopic c topic = c\<lparr>Topics := Topics c @ [topic]\<rparr>"

text \<open>
  The search loop of \<^verbatim>\<open>RemoveTopic\<close>: the index of the first entry equal to
  \<open>topic\<close>, counting from \<open>idx\<close>, or \<open>-1\<close> when the loop ends without a match.
\<close>

fun find_topic :: "string \<Rightarrow> string list \<Rightarrow> int \<Rightarrow> int" where
  "find_topic topic [] idx = - 1"
| "find_topic topic (t # ts) idx = (if t = topic then idx else find_topic topic ts (idx + 1))"

text \<open>\<^verbatim>\<open>RemoveTopic\<close> returns the client and the log lines it wrote.\<close>

definition RemoveTopic :: "Client \<Rightarrow> string \<Rightarrow> Client \<times> string list" where
  "RemoveTopic c topic =
     (let foundIdx = find_topic topic (Topics c) 0 in
      if foundIdx \<noteq> - 1
      then (c\<lparr>Topics := take (nat foundIdx) (Topics c) @ drop (nat (foundIdx + 1)) (Topics c)\<rparr>,
            [''[DEBUG] removing topic %s from client %s''])
      else (c, []))"

subsection \<open>The topic list as a slice\<close>

text \<open>
  \<^verbatim>\<open>c.Topics\<close> is a Go slice: a length and a backing array. The
  \<^verbatim>\<open>append(c.Topics[:foundIdx], c.Topics[foundIdx+1:]...)\<close> of \<^verbatim>\<open>RemoveTopic\<close> has
  room in the array of \<^verbatim>\<open>c.Topics\<close>, so Go writes its result into that same array:
  the entries behind \<open>foundIdx\<close> move one place to the front, the last place keeps
  the value it had, and the slice becomes one shorter. \<open>RemoveTopic\<close> above gives
  the new slice; \<open>RemoveTopic_inplace\<close> gives the array with it. \<open>arr\<close> is the
  array and \<open>n\<close> the length of \<^verbatim>\<open>c.Topics\<close>, so that \<open>take n arr\<close> is the
  topic list.
\<close>

definition RemoveTopic_inplace :: "string list \<Rightarrow> nat \<Rightarrow> string \<Rightarrow> string list \<times> nat" where
  "RemoveTopic_inplace arr n topic =
     (let foundIdx = find_topic topic (take n arr) 0 in
      if foundIdx \<noteq> - 1
      then (take (nat foundIdx) arr @ drop (nat (foundIdx + 1)) (take n arr) @ drop (n - 1) arr,
            n - 1)
      else (arr, n))"

text \<open>
  What the pump and the Hub share while \<^verbatim>\<open>UnsubscribeAll\<close> runs: the backing array,
  the length of \<^verbatim>\<open>c.Topics\<close>, and the topics of the Unsubscribes that the pump has
  sent and the Hub has not handled yet, oldest first.
\<close>

type_synonym topics_store = "string list \<times> nat \<times> string list"

text \<open>
  Modelled from the spec: the Hub's handling of an Unsubscribe, which is not in
  \<^verbatim>\<open>client.go\<close>. The spec (4.1) has the Hub process its events one at a time in
  arrival order, and has Unsubscribe remove the topic from the connection's topic list;
  the method of \<^verbatim>\<open>client.go\<close> that removes a topic is \<^verbatim>\<open>RemoveTopic\<close>.
  \<open>hub_handles k\<close> lets the Hub handle the \<open>k\<close> oldest waiting Unsubscribes, or
  all of them if fewer wait.
\<close>

fun hub_handles :: "nat \<Rightarrow> topics_store \<Rightarrow> topics_store" where
  "hub_handles 0 st = st"
| "hub_handles (Suc k) (arr, n, []) = (arr, n, [])"
| "hub_handles (Suc k) (arr, n, topic # waiting) =
     (let (arr', n') = RemoveTopic_inplace arr n topic in hub_handles k (arr', n', waiting))"

text \<open>The topic list once the Hub has handled every Unsubscribe that waits.\<close>

definition Topics_settled :: "topics_store \<Rightarrow> string list" where
  "Topics_settled st =
     (let (arr, n, waiting) = st;
          (arr', n', waiting') = hub_handles (length waiting) (arr, n, waiting)
      in take n' arr')"

subsection \<open>Intents for the Hub\<close>

definition Subscribe :: "Client \<Rightarrow> string \<Rightarrow> 'm effect list" where
  "Subscribe c topic = [Send_subscribe \<lparr>Topic = topic, Client = ID c\<rparr>]"

fun SubscribeMultiple :: "Client \<Rightarrow> string list \<Rightarrow> 'm effect list" where
  "SubscribeMultiple c [] = []"
| "SubscribeMultiple c (topic # topics) = Subscribe c topic @ SubscribeMultiple c topics"

definition Unsubscribe :: "Client \<Rightarrow> string \<Rightarrow> 'm effect list" where
  "Unsubscribe c topic = [Send_unsubscribe \<lparr>Topic = topic, Client = ID c\<rparr>]"

text \<open>
  The \<^verbatim>\<open>range c.Topics\<close> of \<^verbatim>\<open>UnsubscribeAll\<close> reads the slice once, when the loop
  starts: that fixes the number of turns and the array. Turn \<open>idx\<close> then reads entry
  \<open>idx\<close> of the array as it is at that moment, and the Hub, in its own goroutine,
  handles the Unsubscribes already sent while the loop goes on. \<open>sched idx\<close> is the
  number of waiting Unsubscribes that the Hub handles before the pump reads entry
  \<open>idx\<close>; a Hub that handles each one at once has \<open>sched idx = 1\<close>, a Hub that
  does nothing until the loop is over has \<open>sched idx = 0\<close>.

  \<open>UnsubscribeAll_range sched idx k st\<close> runs the \<open>k\<close> turns from \<open>idx\<close> on. It
  returns the topics that the turns pass to \<^verbatim>\<open>c.Unsubscribe\<close>, in order, and the
  store at the end of the loop. The array never changes its length, and \<open>idx\<close> stays
  below it.
\<close>

fun UnsubscribeAll_range ::
  "(nat \<Rightarrow> nat) \<Rightarrow> nat \<Rightarrow> nat \<Rightarrow> topics_store \<Rightarrow> string list \<times> topics_store"
where
  "UnsubscribeAll_range sched idx 0 st = ([], st)"
| "UnsubscribeAll_range sched idx (Suc k) st =
     (let (arr, n, waiting) = hub_handles (sched idx) st;
          topic = arr ! idx;
          (topics, st') = UnsubscribeAll_range sched (Suc idx) k (arr, n, waiting @ [topic])
      in (topic # topics, st'))"

definition UnsubscribeAll_run :: "Client \<Rightarrow> (nat \<Rightarrow> nat) \<Rightarrow> string list \<times> topics_store" where
  "UnsubscribeAll_run c sched =
     UnsubscribeAll_range sched 0 (length (Topics c)) (Topics c, length (Topics c), [])"

definition UnsubscribeAll :: "Client \<Rightarrow> (nat \<Rightarrow> nat) \<Rightarrow> 'm effect list" where
  "UnsubscribeAll c sched = concat (map (Unsubscribe c) (fst (UnsubscribeAll_run c sched)))"

subsection \<open>Closing\<close>

text \<open>
  \<open>ws_err\<close> says whether \<^verbatim>\<open>c.ws.Close()\<close> returned an error. Closing a channel that
  is already closed panics in Go.
\<close>

definition close :: "Client \<Rightarrow> bool \<Rightarrow> panic + Client \<times> 'm effect list" where
  "close c ws_err =
     (if \<not> closed c then
        (if ws_err then
           Inr (c\<lparr>closed := True\<rparr>,
                [Ws_Close, Log ''[DEBUG] websocket was already closed:''])
         else if is_closed (send c) then Inl Close_of_closed_channel
         else
           Inr (c\<lparr>send := (send c)\<lparr>is_closed := True\<rparr>, closed := True\<rparr>,
                [Ws_Close, Log ''[DEBUG] websocket closed.'',
                 Log ''[DEBUG] closing connection's send channel.'', Close_send]))
      else Inr (c, []))"

subsection \<open>The inbound pump\<close>

text \<open>
  The three JSON decoders are applied to the same payload. The message types they
  fill are declared outside this file, so the decoders are parameters: \<open>None\<close> is a
  decode error, \<open>Some\<close> carries the field the pump reads (the action tag, the topic
  list) or the whole publish message.
\<close>

record 'm decoders =
  unmarshal_action :: "string \<Rightarrow> string option"
  unmarshal_subscriptions :: "string \<Rightarrow> string list option"
  unmarshal_publish :: "string \<Rightarrow> 'm option"

definition invalid_data :: "'m effect" where
  "invalid_data = Log ''[ERROR] invalid data sent for subscription:%v''"

text \<open>
  One turn of the loop after a successful read: everything below \<^verbatim>\<open>ReadMessage\<close>.
  \<open>sched\<close> is the Hub's progress during \<^verbatim>\<open>UnsubscribeAll\<close>.
\<close>

definition listenRead_dispatch ::
  "'m decoders \<Rightarrow> Client \<Rightarrow> (nat \<Rightarrow> nat) \<Rightarrow> string \<Rightarrow> 'm effect list"
where
  "listenRead_dispatch D c sched payload =
     (case unmarshal_action D payload of
        None \<Rightarrow> [invalid_data]
      | Some action \<Rightarrow>
          if action = ''subscribe'' then
            [Log ''[DEBUG] Client %s is subscribing. Removing all old subscriptions.'']
            @ UnsubscribeAll c sched
            @ (case unmarshal_subscriptions D payload of
                 None \<Rightarrow> [invalid_data]
               | Some topics \<Rightarrow> SubscribeMultiple c topics)
          else
            (case unmarshal_publish D payload of
               None \<Rightarrow> [invalid_data]
             | Some pubMsg \<Rightarrow> [Hub_Publish pubMsg]))"

text \<open>
  What \<^verbatim>\<open>ReadMessage\<close> returns: a payload, or an error; the flag says whether
  \<^verbatim>\<open>IsUnexpectedCloseError\<close> holds of the error, which only selects the log line.
\<close>

datatype read_result = Read_payload string | Read_error bool

text \<open>
  The loop. The Hub runs in another goroutine and rewrites \<^verbatim>\<open>c.Topics\<close>, so every
  turn comes with the topic list the pump finds at that turn and with the Hub's
  progress during the turn. The result is the effects and whether the loop was left; a
  list of turns that ends without a read error leaves the pump blocked in
  \<^verbatim>\<open>ReadMessage\<close>.
\<close>

type_synonym turn = "string list \<times> (nat \<Rightarrow> nat) \<times> read_result"

fun listenRead_loop :: "'m decoders \<Rightarrow> Client \<Rightarrow> turn list \<Rightarrow> 'm effect list \<times> bool" where
  "listenRead_loop D c [] = ([], False)"
| "listenRead_loop D c ((ts, sched, Read_error unexpected) # rest) =
     ([Log (if unexpected
            then ''[DEBUG] read message error. Client probably closed connection:''
            else ''[DEBUG] Unexpected error: %v'')], True)"
| "listenRead_loop D c ((ts, sched, Read_payload payload) # rest) =
     (let (es, left) = listenRead_loop D c rest
      in (listenRead_dispatch D (c\<lparr>Topics := ts\<rparr>) sched payload @ es, left))"

text \<open>The deferred function of \<^verbatim>\<open>listenRead\<close>.\<close>

definition listenRead_deferred :: "Client \<Rightarrow> 'm effect list" where
  "listenRead_deferred c =
     [Log ''[DEBUG] Calling unregister from listenRead'', Send_unregister (ID c)]"

text \<open>\<open>deadline_err\<close> says whether the first \<^verbatim>\<open>SetReadDeadline\<close> returned an error.\<close>

definition listenRead ::
  "'m decoders \<Rightarrow> Client \<Rightarrow> bool \<Rightarrow> turn list \<Rightarrow> 'm effect list \<times> bool"
where
  "listenRead D c deadline_err turns =
     (let (es, left) = listenRead_loop D c turns
      in ([Ws_SetReadLimit maxMessageSize, Ws_SetReadDeadline pongWait]
          @ (if deadline_err then [Log ''[ERROR] failed to set socket read deadline:''] else [])
          @ [Ws_SetPongHandler pongWait]
          @ es
          @ (if left then listenRead_deferred c else []),
          left))"

subsection \<open>The outbound pump\<close>

text \<open>
  The local function \<^verbatim>\<open>write\<close>: the deadline is set first, and the message is
  written only if that succeeded.
\<close>

datatype write_result = Write_ok | Deadline_failed | Write_failed

definition listenWrite_write :: "message_type \<Rightarrow> string \<Rightarrow> write_result \<Rightarrow> 'm effect list \<times> bool" where
  "listenWrite_write mt payload r =
     (if r = Deadline_failed then ([Ws_SetWriteDeadline writeWait], True)
      else ([Ws_SetWriteDeadline writeWait, Ws_WriteMessage mt payload], r \<noteq> Write_ok))"

text \<open>
  What the \<^verbatim>\<open>select\<close> yields at each turn: a receive on the send channel (\<open>None\<close>
  when the channel is closed) or a tick, each with the result of the write it causes.
\<close>

datatype select_result = Recv "string option" write_result | Tick write_result

fun listenWrite_loop :: "select_result list \<Rightarrow> 'm effect list \<times> bool" where
  "listenWrite_loop [] = ([], False)"
| "listenWrite_loop (Recv None r # rest) =
     (let (ws, err) = listenWrite_write CloseMessage [] r
      in (ws @ (if err then [Log ''[ERROR] socket already closed:''] else []), True))"
| "listenWrite_loop (Recv (Some message) r # rest) =
     (let (ws, err) = listenWrite_write TextMessage message r
      in if err then (ws @ [Log ''[ERROR] failed to write socket message:''], True)
         else (let (es, left) = listenWrite_loop rest in (ws @ es, left)))"
| "listenWrite_loop (Tick r # rest) =
     (let (ws, err) = listenWrite_write PingMessage [] r
      in if err then (ws @ [Log ''[ERROR] failed to ping socket:''], True)
         else (let (es, left) = listenWrite_loop rest in (ws @ es, left)))"

text \<open>The deferred function of \<^verbatim>\<open>listenWrite\<close>: the websocket is closed directly.\<close>

definition listenWrite_deferred :: "'m effect list" where
  "listenWrite_deferred = [Ticker_Stop, Ws_Close]"

definition listenWrite :: "select_result list \<Rightarrow> 'm effect list \<times> bool" where
  "listenWrite turns =
     (let (es, left) = listenWrite_loop turns
      in ([NewTicker pingPeriod] @ es @ (if left then listenWrite_deferred else []), left))"

subsection \<open>The topic list under the Hub's events\<close>

text \<open>The two events of the Hub that concern a connection's topic list, each with its topic.\<close>

datatype hub_event = Subscribed string | Unsubscribed string

text \<open>
  Modelled from the spec: the Hub's handlers of Subscribe and Unsubscribe, which are not
  in \<^verbatim>\<open>client.go\<close>, as far as they touch the connection's topic list. The spec (4.1)
  has Subscribe append the topic to the connection's topic list if not already present,
  and Unsubscribe remove the topic from the connection's topic list. The appending and
  the removing are \<^verbatim>\<open>AddTopic\<close> and \<^verbatim>\<open>RemoveTopic\<close> of \<^verbatim>\<open>client.go\<close>; the test
  for presence is the handler's.
\<close>

fun handle_event :: "Client \<Rightarrow> hub_event \<Rightarrow> Client" where
  "handle_event c (Subscribed topic) =
     (if topic \<in> set (Topics c) then c else AddTopic c topic)"
| "handle_event c (Unsubscribed topic) = fst (RemoveTopic c topic)"

subsection \<open>Kinds of effects and of turns\<close>

fun is_subscribe :: "'m effect \<Rightarrow> bool" where
  "is_subscribe (Send_subscribe s) = True"
| "is_subscribe e = False"

fun is_publish :: "'m effect \<Rightarrow> bool" where
  "is_publish (Hub_Publish m) = True"
| "is_publish e = False"

fun is_unregister :: "'m effect \<Rightarrow> bool" where
  "is_unregister (Send_unregister x) = True"
| "is_unregister e = False"

fun is_read_error :: "turn \<Rightarrow> bool" where
  "is_read_error (ts, sched, Read_error unexpected) = True"
| "is_read_error (ts, sched, Read_payload payload) = False"

text \<open>
  A payload fails to decode when the decoder that the pump consults for it returns an
  error: the envelope's, or the one of the branch that the action tag selects.
\<close>

definition decode_fails :: "'m decoders \<Rightarrow> string \<Rightarrow> bool" where
  "decode_fails D payload =
     (case unmarshal_action D payload of
        None \<Rightarrow> True
      | Some action \<Rightarrow>
          if action = ''subscribe'' then unmarshal_subscriptions D payload = None
          else unmarshal_publish D payload = None)"

subsection \<open>Sequences of close requests\<close>

text \<open>
  A connection is asked to close by a call of \<^verbatim>\<open>close\<close> (with the result of the
  websocket's \<^verbatim>\<open>Close\<close>, should the call reach it) or by the exit of the outbound
  pump, whose deferred function closes the websocket without consulting the flag.
  The requests are taken one after the other.
\<close>

datatype close_request = Close_call bool | ListenWrite_exit

fun is_close_call :: "close_request \<Rightarrow> bool" where
  "is_close_call (Close_call ws_err) = True"
| "is_close_call ListenWrite_exit = False"

fun close_requests :: "Client \<Rightarrow> close_request list \<Rightarrow> panic + Client \<times> 'm effect list" where
  "close_requests c [] = Inr (c, [])"
| "close_requests c (Close_call ws_err # rs) =
     (case close c ws_err of
        Inl p \<Rightarrow> Inl p
      | Inr (c', es) \<Rightarrow>
          (case close_requests c' rs of
             Inl p \<Rightarrow> Inl p
           | Inr (c'', es') \<Rightarrow> Inr (c'', es @ es')))"
| "close_requests c (ListenWrite_exit # rs) =
     (case close_requests c rs of
        Inl p \<Rightarrow> Inl p
      | Inr (c', es') \<Rightarrow> Inr (c', listenWrite_deferred @ es'))"

text \<open>The flag covers the channel: a closed send channel belongs to a client marked closed.\<close>

definition guard_ok :: "Client \<Rightarrow> bool" where
  "guard_ok c = (is_closed (send c) \<longrightarrow> closed c)"

subsection \<open>The tunable parameters\<close>

lemma pingPeriod_value: "pingPeriod = 27 * Second"
  by (simp add: pingPeriod_def pongWait_def Second_def signed_divide_int_def)

text \<open>
  C9. The write deadline is 10 seconds, the pong wait 30 seconds, the ping period is
  (pong wait * 9) / 10 = 27 seconds and strictly less than the pong wait, the maximum
  inbound frame size is 512 bytes, and the send channel of every new client has
  capacity 256. No step of the computation leaves the 64-bit range.
\<close>

theorem tunable_parameters:
  "writeWait = 10 * Second
   \<and> pongWait = 30 * Second
   \<and> pingPeriod = (pongWait * 9) sdiv 10
   \<and> pingPeriod = 27 * Second
   \<and> pingPeriod = 27000000000
   \<and> pingPeriod < pongWait
   \<and> int64 (pongWait * 9) \<and> int64 pingPeriod \<and> int64 writeWait
   \<and> maxMessageSize = 512
   \<and> capacity (send (NewClient cid)) = 256
   \<and> \<not> is_closed (send (NewClient cid))"
  by (simp add: pingPeriod_value writeWait_def pongWait_def Second_def maxMessageSize_def
      NewClient_def make_chan_def int64_def signed_divide_int_def)

subsection \<open>The topic list\<close>

lemma find_topic_first:
  "find_topic topic ts idx =
     (if topic \<in> set ts then idx + int (length (takeWhile (\<lambda>t. t \<noteq> topic) ts)) else - 1)"
  by (induction ts arbitrary: idx) auto

lemma splice_remove1:
  "x \<in> set xs \<Longrightarrow>
   take (length (takeWhile (\<lambda>t. t \<noteq> x) xs)) xs
     @ drop (Suc (length (takeWhile (\<lambda>t. t \<noteq> x) xs))) xs = remove1 x xs"
  by (induction xs) auto

text \<open>The splice at the found index removes the first occurrence and nothing else.\<close>

lemma Topics_RemoveTopic: "Topics (fst (RemoveTopic c topic)) = remove1 topic (Topics c)"
proof (cases "topic \<in> set (Topics c)")
  case True
  then show ?thesis
    by (simp add: RemoveTopic_def find_topic_first Let_def nat_add_distrib splice_remove1)
next
  case False
  then show ?thesis
    by (simp add: RemoveTopic_def find_topic_first Let_def remove1_idem)
qed

lemma RemoveTopic_other_fields:
  "ID (fst (RemoveTopic c topic)) = ID c \<and> closed (fst (RemoveTopic c topic)) = closed c
   \<and> send (fst (RemoveTopic c topic)) = send c"
  by (simp add: RemoveTopic_def Let_def)

lemma count_list_remove1:
  "count_list (remove1 x xs) y = (if x = y then count_list xs y - 1 else count_list xs y)"
  by (induction xs) auto

lemma count_list_zero: "count_list xs x = 0 \<longleftrightarrow> x \<notin> set xs"
  by (induction xs) auto

lemma distinct_count_le1: "distinct xs \<Longrightarrow> count_list xs x \<le> 1"
  by (induction xs) (auto simp: count_list_zero)

text \<open>
  C2 (as amended). Handling Unsubscribe(T, C) with \<^verbatim>\<open>RemoveTopic\<close> removes the first
  occurrence of T from C's topic list and leaves every other entry in place: the number
  of occurrences of T drops by one, T is still in the list afterwards exactly when it
  occurred at least twice before, and T is gone whenever the list had no duplicates.
\<close>

theorem RemoveTopic_first_occurrence:
  "Topics (fst (RemoveTopic c T)) = remove1 T (Topics c)
   \<and> count_list (Topics (fst (RemoveTopic c T))) T = count_list (Topics c) T - 1
   \<and> filter (\<lambda>t. t \<noteq> T) (Topics (fst (RemoveTopic c T))) = filter (\<lambda>t. t \<noteq> T) (Topics c)
   \<and> (T \<in> set (Topics (fst (RemoveTopic c T))) \<longleftrightarrow> 2 \<le> count_list (Topics c) T)
   \<and> (distinct (Topics c) \<longrightarrow> T \<notin> set (Topics (fst (RemoveTopic c T))))"
proof -
  have f: "filter (\<lambda>t. t \<noteq> T) (remove1 T xs) = filter (\<lambda>t. t \<noteq> T) xs" for xs
    by (induction xs) auto
  have m: "T \<in> set (remove1 T xs) \<longleftrightarrow> 2 \<le> count_list xs T" for xs
    using count_list_remove1 [of T xs T] count_list_zero [of "remove1 T xs" T] by auto
  show ?thesis
    using distinct_count_le1 [of "Topics c" T]
    by (simp add: Topics_RemoveTopic count_list_remove1 f m)
qed

theorem RemoveTopic_first_occurrence_witness:
  "distinct (Topics (AddTopic (AddTopic (NewClient ''c1'') ''news'') ''weather''))
   \<and> Topics (fst (RemoveTopic (AddTopic (AddTopic (NewClient ''c1'') ''news'') ''weather'') ''news''))
       = [''weather'']
   \<and> ''news'' \<notin> set (Topics (fst (RemoveTopic
         (AddTopic (AddTopic (NewClient ''c1'') ''news'') ''weather'') ''news'')))"
  using RemoveTopic_first_occurrence
    [of "AddTopic (AddTopic (NewClient ''c1'') ''news'') ''weather''" "''news''"]
  by (simp add: AddTopic_def NewClient_def)

text \<open>
  The claim as it was stated fails on a list that holds the topic twice, which two
  calls of \<^verbatim>\<open>AddTopic\<close> produce: after \<^verbatim>\<open>RemoveTopic\<close> the topic is still there.
\<close>

theorem RemoveTopic_duplicate_counterexample:
  "Topics (AddTopic (AddTopic (NewClient ''c1'') ''news'') ''news'') = [''news'', ''news'']
   \<and> ''news'' \<in> set (Topics (fst (RemoveTopic
         (AddTopic (AddTopic (NewClient ''c1'') ''news'') ''news'') ''news'')))"
  by (simp add: RemoveTopic_def AddTopic_def NewClient_def)

text \<open>\<^verbatim>\<open>AddTopic\<close> itself appends without looking at the list.\<close>

lemma Topics_AddTopic: "Topics (AddTopic c topic) = Topics c @ [topic]"
  by (simp add: AddTopic_def)

lemma distinct_handle_event:
  "distinct (Topics c) \<Longrightarrow> distinct (Topics (handle_event c ev))"
  by (cases ev) (simp_all add: AddTopic_def Topics_RemoveTopic)

lemma distinct_handle_events:
  "distinct (Topics c) \<Longrightarrow> distinct (Topics (foldl handle_event c evs))"
  by (induction evs arbitrary: c) (simp_all add: distinct_handle_event)

text \<open>
  C3. Handling Subscribe(T, C) appends T to C's topic list only if T is not already in
  it: a list that holds T is left as it is, any other list gets T at its end. The
  handlers keep a topic list free of duplicates, so after any sequence of Subscribe and
  Unsubscribe events that starts from the empty list of a new client the list has no
  duplicates. The test for presence is the Hub's, as the spec describes it;
  \<^verbatim>\<open>AddTopic\<close> has none.
\<close>

theorem Subscribe_appends_if_absent:
  "Topics (handle_event c (Subscribed T)) =
     (if T \<in> set (Topics c) then Topics c else Topics c @ [T])
   \<and> (distinct (Topics c) \<longrightarrow> distinct (Topics (foldl handle_event c evs)))
   \<and> distinct (Topics (foldl handle_event (NewClient cid) evs))"
proof -
  have "distinct (Topics (NewClient cid))"
    by (simp add: NewClient_def)
  then have "distinct (Topics (foldl handle_event (NewClient cid) evs))"
    by (rule distinct_handle_events)
  then show ?thesis
    by (simp add: distinct_handle_events Topics_AddTopic)
qed

theorem Subscribe_appends_if_absent_witness:
  "distinct (Topics (AddTopic (NewClient ''c1'') ''news''))
   \<and> Topics (handle_event (AddTopic (NewClient ''c1'') ''news'') (Subscribed ''news'')) = [''news'']
   \<and> Topics (foldl handle_event (AddTopic (NewClient ''c1'') ''news'')
        [Subscribed ''news'', Subscribed ''weather'', Unsubscribed ''news'', Subscribed ''weather''])
       = [''weather'']
   \<and> distinct (Topics (foldl handle_event (AddTopic (NewClient ''c1'') ''news'')
        [Subscribed ''news'', Subscribed ''weather'', Unsubscribed ''news'', Subscribed ''weather'']))"
  using Subscribe_appends_if_absent [of "AddTopic (NewClient ''c1'') ''news''" "''news''"
      "[Subscribed ''news'', Subscribed ''weather'', Unsubscribed ''news'', Subscribed ''weather'']"
      "''c1''"]
  by (simp add: AddTopic_def RemoveTopic_def NewClient_def)

subsection \<open>The slice and the Hub\<close>

text \<open>
  The splice in the array agrees with \<^verbatim>\<open>RemoveTopic\<close> on the slice: the topic list
  loses the first occurrence, and the array keeps its length.
\<close>

lemma first_match_in_range:
  "x \<in> set xs \<Longrightarrow> length (takeWhile (\<lambda>t. t \<noteq> x) xs) < length xs"
  by (induction xs) auto

lemma RemoveTopic_inplace_slice:
  assumes "n \<le> length arr"
  shows "take (snd (RemoveTopic_inplace arr n topic)) (fst (RemoveTopic_inplace arr n topic))
           = remove1 topic (take n arr)
         \<and> length (fst (RemoveTopic_inplace arr n topic)) = length arr
         \<and> snd (RemoveTopic_inplace arr n topic) \<le> length arr"
proof (cases "topic \<in> set (take n arr)")
  case False
  with assms show ?thesis
    by (simp add: RemoveTopic_inplace_def find_topic_first remove1_idem)
next
  case True
  let ?f = "length (takeWhile (\<lambda>t. t \<noteq> topic) (take n arr))"
  have f: "?f < n"
    using first_match_in_range [OF True] assms by simp
  have r: "RemoveTopic_inplace arr n topic =
      (take ?f arr @ drop (Suc ?f) (take n arr) @ drop (n - 1) arr, n - 1)"
    using True by (simp add: RemoveTopic_inplace_def find_topic_first nat_add_distrib)
  have l: "length (take ?f arr @ drop (Suc ?f) (take n arr)) = n - 1"
    using f assms by simp
  have t: "take ?f arr = take ?f (take n arr)"
    using f by simp
  have "take (n - 1) (take ?f arr @ drop (Suc ?f) (take n arr) @ drop (n - 1) arr)
      = take ?f arr @ drop (Suc ?f) (take n arr)"
    using l by (metis append.assoc append_eq_conv_conj)
  also have "\<dots> = remove1 topic (take n arr)"
    unfolding t using True by (rule splice_remove1)
  finally show ?thesis
    using f assms by (simp add: r)
qed

lemma RemoveTopic_inplace_RemoveTopic:
  "n \<le> length arr \<Longrightarrow>
   take (snd (RemoveTopic_inplace arr n topic)) (fst (RemoveTopic_inplace arr n topic))
     = Topics (fst (RemoveTopic (c\<lparr>Topics := take n arr\<rparr>) topic))"
  by (simp add: RemoveTopic_inplace_slice Topics_RemoveTopic)

lemma hub_handles_length:
  "n \<le> length arr \<Longrightarrow> hub_handles k (arr, n, waiting) = (arr', n', waiting') \<Longrightarrow>
   length arr' = length arr \<and> n' \<le> length arr'"
proof (induction k arbitrary: arr n waiting)
  case 0
  then show ?case by simp
next
  case (Suc k)
  show ?case
  proof (cases waiting)
    case Nil
    with Suc.prems show ?thesis by simp
  next
    case (Cons t ts)
    obtain a m where r: "RemoveTopic_inplace arr n t = (a, m)"
      by (cases "RemoveTopic_inplace arr n t")
    from RemoveTopic_inplace_slice [OF Suc.prems(1), of t] r
    have s: "length a = length arr" "m \<le> length a"
      by simp_all
    from Suc.prems(2) Cons r have "hub_handles k (a, m, ts) = (arr', n', waiting')"
      by simp
    from Suc.IH [OF s(2) this] s(1) show ?thesis by simp
  qed
qed

lemma Topics_settled_foldl:
  "n \<le> length arr \<Longrightarrow>
   Topics_settled (arr, n, waiting) = foldl (\<lambda>xs t. remove1 t xs) (take n arr) waiting"
proof (induction waiting arbitrary: arr n)
  case Nil
  then show ?case by (simp add: Topics_settled_def)
next
  case (Cons t waiting)
  obtain arr' n' where r: "RemoveTopic_inplace arr n t = (arr', n')"
    by (cases "RemoveTopic_inplace arr n t")
  from RemoveTopic_inplace_slice [OF Cons.prems, of t] r
  have s: "take n' arr' = remove1 t (take n arr)" "n' \<le> length arr'"
    by simp_all
  have "Topics_settled (arr, n, t # waiting) = Topics_settled (arr', n', waiting)"
    by (simp add: Topics_settled_def r)
  with Cons.IH [OF s(2)] s(1) show ?case by simp
qed

text \<open>
  While the Hub handles nothing, the loop reads the topic list as it was: the topics
  sent are the entries of the list in order, and handling them afterwards empties it.
\<close>

lemma UnsubscribeAll_range_idle:
  "idx + k \<le> length arr \<Longrightarrow>
   UnsubscribeAll_range (\<lambda>i. 0) idx k (arr, n, waiting)
     = (take k (drop idx arr), (arr, n, waiting @ take k (drop idx arr)))"
proof (induction k arbitrary: idx waiting)
  case 0
  then show ?case by simp
next
  case (Suc k)
  from Suc.prems have i: "idx < length arr" by simp
  from Suc.prems have "Suc idx + k \<le> length arr" by simp
  from Suc.IH [OF this]
  have "UnsubscribeAll_range (\<lambda>i. 0) (Suc idx) k (arr, n, waiting @ [arr ! idx])
      = (take k (drop (Suc idx) arr), (arr, n, (waiting @ [arr ! idx]) @ take k (drop (Suc idx) arr)))"
    by blast
  moreover have "take (Suc k) (drop idx arr) = arr ! idx # take k (drop (Suc idx) arr)"
    using i by (simp add: Cons_nth_drop_Suc [symmetric])
  ultimately show ?case by (simp add: Let_def)
qed

lemma length_UnsubscribeAll_range:
  "length (fst (UnsubscribeAll_range sched idx k st)) = k"
  by (induction k arbitrary: idx st) (simp_all add: case_prod_beta Let_def)

lemma remove_each_of_prefix: "foldl (\<lambda>xs t. remove1 t xs) (ts @ ys) ts = ys"
  by (induction ts) simp_all

lemma UnsubscribeAll_run_idle:
  "UnsubscribeAll_run c (\<lambda>i. 0) = (Topics c, (Topics c, length (Topics c), Topics c))"
  by (simp add: UnsubscribeAll_run_def UnsubscribeAll_range_idle)

lemma UnsubscribeAll_idle_clears:
  "fst (UnsubscribeAll_run c (\<lambda>i. 0)) = Topics c
   \<and> Topics_settled (snd (UnsubscribeAll_run c (\<lambda>i. 0))) = []"
  using remove_each_of_prefix [of "Topics c" "[]"]
  by (simp add: UnsubscribeAll_run_idle Topics_settled_foldl)

lemma length_UnsubscribeAll_run:
  "length (fst (UnsubscribeAll_run c sched)) = length (Topics c)"
  by (simp add: UnsubscribeAll_run_def length_UnsubscribeAll_range)

lemma SubscribeMultiple_map:
  "SubscribeMultiple c topics = map (\<lambda>t. Send_subscribe \<lparr>Topic = t, Client = ID c\<rparr>) topics"
  by (induction topics) (simp_all add: Subscribe_def)

lemma concat_Unsubscribe:
  "concat (map (Unsubscribe c) ts) = map (\<lambda>t. Send_unsubscribe \<lparr>Topic = t, Client = ID c\<rparr>) ts"
  by (induction ts) (simp_all add: Unsubscribe_def)

lemma UnsubscribeAll_map:
  "UnsubscribeAll c sched =
     map (\<lambda>t. Send_unsubscribe \<lparr>Topic = t, Client = ID c\<rparr>) (fst (UnsubscribeAll_run c sched))"
  by (simp add: UnsubscribeAll_def concat_Unsubscribe)

lemma UnsubscribeAll_run_Topics:
  "UnsubscribeAll_run (c\<lparr>Topics := ts\<rparr>) sched = UnsubscribeAll_run (c'\<lparr>Topics := ts\<rparr>) sched"
  by (simp add: UnsubscribeAll_run_def)

subsection \<open>The intents of one frame\<close>

text \<open>
  Whatever the Hub does meanwhile, a subscribe frame sends as many Unsubscribes as the
  topic list has entries, all of them before the first Subscribe, and then one
  Subscribe for every entry of the decoded list, in order. A topic list that fails to
  decode leaves the Unsubscribes sent and puts the error log in place of the
  Subscribes.
\<close>

lemma subscribe_dispatch:
  assumes "unmarshal_action D payload = Some ''subscribe''"
    and "unmarshal_subscriptions D payload = Some L"
  shows "listenRead_dispatch D c sched payload =
           [Log ''[DEBUG] Client %s is subscribing. Removing all old subscriptions.'']
           @ map (\<lambda>t. Send_unsubscribe \<lparr>Topic = t, Client = ID c\<rparr>) (fst (UnsubscribeAll_run c sched))
           @ map (\<lambda>t. Send_subscribe \<lparr>Topic = t, Client = ID c\<rparr>) L"
  using assms by (simp add: listenRead_dispatch_def UnsubscribeAll_map SubscribeMultiple_map)

lemma malformed_subscribe_dispatch:
  assumes "unmarshal_action D payload = Some ''subscribe''"
    and "unmarshal_subscriptions D payload = None"
  shows "listenRead_dispatch D c sched payload =
           [Log ''[DEBUG] Client %s is subscribing. Removing all old subscriptions.'']
           @ map (\<lambda>t. Send_unsubscribe \<lparr>Topic = t, Client = ID c\<rparr>) (fst (UnsubscribeAll_run c sched))
           @ [invalid_data]"
  using assms by (simp add: listenRead_dispatch_def UnsubscribeAll_map)

text \<open>
  With a Hub that handles nothing until the loop is over, the Unsubscribes are those
  of the topic list, entry by entry, and handling them leaves no topic.
\<close>

lemma subscribe_dispatch_idle:
  assumes "unmarshal_action D payload = Some ''subscribe''"
    and "unmarshal_subscriptions D payload = Some L"
  shows "listenRead_dispatch D c (\<lambda>i. 0) payload =
           [Log ''[DEBUG] Client %s is subscribing. Removing all old subscriptions.'']
           @ map (\<lambda>t. Send_unsubscribe \<lparr>Topic = t, Client = ID c\<rparr>) (Topics c)
           @ map (\<lambda>t. Send_subscribe \<lparr>Topic = t, Client = ID c\<rparr>) L
         \<and> Topics_settled (snd (UnsubscribeAll_run c (\<lambda>i. 0))) = []"
  using subscribe_dispatch [OF assms, of c "\<lambda>i. 0"] UnsubscribeAll_idle_clears [of c] by simp

text \<open>
  C1, where the code departs from it. A connection with the topic list [a, b, c, d]
  receives a subscribe frame whose topic list decodes to the empty list. The claim
  expects an Unsubscribe for each of a, b, c, d and a connection left with no topic.
  With a Hub that handles every Unsubscribe before the pump reads the next entry, the
  loop reads a, then c, d and d from the array that \<^verbatim>\<open>RemoveTopic\<close> has shifted: no
  Unsubscribe is sent for b, and b stays in the topic list. With a Hub that is one
  event behind, the loop reads a, b, d, d, and c stays.
\<close>

theorem subscribe_skips_topic:
  "listenRead_dispatch
     \<lparr>unmarshal_action = (\<lambda>p. Some ''subscribe''), unmarshal_subscriptions = (\<lambda>p. Some []),
      unmarshal_publish = (\<lambda>p. None :: string option)\<rparr>
     ((NewClient ''c1'')\<lparr>Topics := [''a'', ''b'', ''c'', ''d'']\<rparr>) (\<lambda>idx. 1) ''{}''
     = [Log ''[DEBUG] Client %s is subscribing. Removing all old subscriptions.'',
        Send_unsubscribe \<lparr>Topic = ''a'', Client = ''c1''\<rparr>,
        Send_unsubscribe \<lparr>Topic = ''c'', Client = ''c1''\<rparr>,
        Send_unsubscribe \<lparr>Topic = ''d'', Client = ''c1''\<rparr>,
        Send_unsubscribe \<lparr>Topic = ''d'', Client = ''c1''\<rparr>]
   \<and> Topics_settled (snd (UnsubscribeAll_run
        ((NewClient ''c1'')\<lparr>Topics := [''a'', ''b'', ''c'', ''d'']\<rparr>) (\<lambda>idx. 1))) = [''b'']
   \<and> listenRead_dispatch
     \<lparr>unmarshal_action = (\<lambda>p. Some ''subscribe''), unmarshal_subscriptions = (\<lambda>p. Some []),
      unmarshal_publish = (\<lambda>p. None :: string option)\<rparr>
     ((NewClient ''c1'')\<lparr>Topics := [''a'', ''b'', ''c'', ''d'']\<rparr>)
     (\<lambda>idx. if idx < 2 then 0 else 1) ''{}''
     = [Log ''[DEBUG] Client %s is subscribing. Removing all old subscriptions.'',
        Send_unsubscribe \<lparr>Topic = ''a'', Client = ''c1''\<rparr>,
        Send_unsubscribe \<lparr>Topic = ''b'', Client = ''c1''\<rparr>,
        Send_unsubscribe \<lparr>Topic = ''d'', Client = ''c1''\<rparr>,
        Send_unsubscribe \<lparr>Topic = ''d'', Client = ''c1''\<rparr>]
   \<and> Topics_settled (snd (UnsubscribeAll_run
        ((NewClient ''c1'')\<lparr>Topics := [''a'', ''b'', ''c'', ''d'']\<rparr>)
        (\<lambda>idx. if idx < 2 then 0 else 1))) = [''c'']"
  by (simp add: listenRead_dispatch_def UnsubscribeAll_def UnsubscribeAll_run_def Unsubscribe_def
      Topics_settled_def RemoveTopic_inplace_def NewClient_def Let_def)

text \<open>
  C8, where the code departs from it. The same connection receives a subscribe frame
  whose topic list fails to decode. The error is logged after the Unsubscribes and no
  Subscribe is sent, as the claim says; but the Unsubscribes are a, b, d, d with a Hub
  one event behind and a, c, d, d with a Hub that keeps up, so the connection does not
  end up subscribed to no topic: c, or b, stays in the topic list.
\<close>

theorem malformed_subscribe_skips_topic:
  "listenRead_dispatch
     \<lparr>unmarshal_action = (\<lambda>p. Some ''subscribe''), unmarshal_subscriptions = (\<lambda>p. None),
      unmarshal_publish = (\<lambda>p. None :: string option)\<rparr>
     ((NewClient ''c1'')\<lparr>Topics := [''a'', ''b'', ''c'', ''d'']\<rparr>)
     (\<lambda>idx. if idx < 2 then 0 else 1) ''{}''
     = [Log ''[DEBUG] Client %s is subscribing. Removing all old subscriptions.'',
        Send_unsubscribe \<lparr>Topic = ''a'', Client = ''c1''\<rparr>,
        Send_unsubscribe \<lparr>Topic = ''b'', Client = ''c1''\<rparr>,
        Send_unsubscribe \<lparr>Topic = ''d'', Client = ''c1''\<rparr>,
        Send_unsubscribe \<lparr>Topic = ''d'', Client = ''c1''\<rparr>,
        Log ''[ERROR] invalid data sent for subscription:%v'']
   \<and> Topics_settled (snd (UnsubscribeAll_run
        ((NewClient ''c1'')\<lparr>Topics := [''a'', ''b'', ''c'', ''d'']\<rparr>)
        (\<lambda>idx. if idx < 2 then 0 else 1))) = [''c'']
   \<and> listenRead_dispatch
     \<lparr>unmarshal_action = (\<lambda>p. Some ''subscribe''), unmarshal_subscriptions = (\<lambda>p. None),
      unmarshal_publish = (\<lambda>p. None :: string option)\<rparr>
     ((NewClient ''c1'')\<lparr>Topics := [''a'', ''b'', ''c'', ''d'']\<rparr>) (\<lambda>idx. 1) ''{}''
     = [Log ''[DEBUG] Client %s is subscribing. Removing all old subscriptions.'',
        Send_unsubscribe \<lparr>Topic = ''a'', Client = ''c1''\<rparr>,
        Send_unsubscribe \<lparr>Topic = ''c'', Client = ''c1''\<rparr>,
        Send_unsubscribe \<lparr>Topic = ''d'', Client = ''c1''\<rparr>,
        Send_unsubscribe \<lparr>Topic = ''d'', Client = ''c1''\<rparr>,
        Log ''[ERROR] invalid data sent for subscription:%v'']
   \<and> Topics_settled (snd (UnsubscribeAll_run
        ((NewClient ''c1'')\<lparr>Topics := [''a'', ''b'', ''c'', ''d'']\<rparr>) (\<lambda>idx. 1))) = [''b'']"
  by (simp add: listenRead_dispatch_def UnsubscribeAll_def UnsubscribeAll_run_def Unsubscribe_def
      Topics_settled_def RemoveTopic_inplace_def NewClient_def Let_def invalid_data_def)

text \<open>
  C6. A frame whose envelope decodes with an action tag other than "subscribe", whatever
  the tag, and whose payload decodes as a publish message: the pump makes exactly one
  Publish call with that message and nothing else, so no subscribe or unsubscribe
  intent.
\<close>

theorem default_action_publishes:
  assumes "unmarshal_action D payload = Some action"
    and "action \<noteq> ''subscribe''"
    and "unmarshal_publish D payload = Some pubMsg"
  shows "listenRead_dispatch D c sched payload = [Hub_Publish pubMsg]"
  using assms by (simp add: listenRead_dispatch_def)

theorem default_action_publishes_witness:
  "''dance'' \<noteq> ''subscribe''
   \<and> listenRead_dispatch
       \<lparr>unmarshal_action = (\<lambda>p. Some ''dance''), unmarshal_subscriptions = (\<lambda>p. None),
        unmarshal_publish = (\<lambda>p. Some p)\<rparr>
       (AddTopic (NewClient ''c1'') ''news'') (\<lambda>idx. 1) ''{}'' = [Hub_Publish ''{}'']"
  using default_action_publishes
    [where D = "\<lparr>unmarshal_action = (\<lambda>p. Some ''dance''),
                 unmarshal_subscriptions = (\<lambda>p. None),
                 unmarshal_publish = (\<lambda>p. Some p)\<rparr>"
       and payload = "''{}''" and action = "''dance''" and pubMsg = "''{}''"
       and c = "AddTopic (NewClient ''c1'') ''news''" and sched = "\<lambda>idx. 1"]
  by simp

subsection \<open>The inbound loop\<close>

lemma listenRead_loop_payload:
  "listenRead_loop D c ((ts, sched, Read_payload payload) # rest) =
     (listenRead_dispatch D (c\<lparr>Topics := ts\<rparr>) sched payload @ fst (listenRead_loop D c rest),
      snd (listenRead_loop D c rest))"
  by (simp add: case_prod_beta)

text \<open>
  C5. A frame whose payload fails to decode, be it as the envelope, as the topic list of
  a subscribe or as a publish message: the pump logs the error and sends no Subscribe,
  makes no Publish call, sends no Unregister and closes nothing. For a subscribe the
  Unsubscribes of \<^verbatim>\<open>UnsubscribeAll\<close> have gone out before the error, one for each
  entry that the loop read: as many as the topic list has entries, and those of the
  topic list itself while the Hub handles none of them during the loop. The loop goes
  on: it is left exactly when the later turns leave it, and a following frame is
  dispatched as it would be had it come first.
\<close>

theorem decode_failure_not_fatal:
  assumes "decode_fails D payload"
  shows "listenRead_dispatch D (c\<lparr>Topics := ts\<rparr>) sched payload =
           (if unmarshal_action D payload = Some ''subscribe''
            then [Log ''[DEBUG] Client %s is subscribing. Removing all old subscriptions.'']
                 @ map (\<lambda>t. Send_unsubscribe \<lparr>Topic = t, Client = ID c\<rparr>)
                     (fst (UnsubscribeAll_run (c\<lparr>Topics := ts\<rparr>) sched))
                 @ [invalid_data]
            else [invalid_data])
         \<and> fst (UnsubscribeAll_run (c\<lparr>Topics := ts\<rparr>) (\<lambda>idx. 0)) = ts
         \<and> length (fst (UnsubscribeAll_run (c\<lparr>Topics := ts\<rparr>) sched)) = length ts
         \<and> filter (\<lambda>e. is_subscribe e \<or> is_publish e \<or> is_unregister e
                       \<or> e = Ws_Close \<or> e = Close_send)
              (listenRead_dispatch D (c\<lparr>Topics := ts\<rparr>) sched payload) = []
         \<and> listenRead_loop D c ((ts, sched, Read_payload payload) # rest) =
              (listenRead_dispatch D (c\<lparr>Topics := ts\<rparr>) sched payload
               @ fst (listenRead_loop D c rest),
               snd (listenRead_loop D c rest))
         \<and> listenRead_loop D c
              ((ts, sched, Read_payload payload) # (ts', sched', Read_payload payload') # rest) =
              (listenRead_dispatch D (c\<lparr>Topics := ts\<rparr>) sched payload
               @ listenRead_dispatch D (c\<lparr>Topics := ts'\<rparr>) sched' payload'
               @ fst (listenRead_loop D c rest),
               snd (listenRead_loop D c rest))
         \<and> \<not> snd (listenRead_loop D c [(ts, sched, Read_payload payload)])"
proof -
  let ?es = "listenRead_dispatch D (c\<lparr>Topics := ts\<rparr>) sched payload"
  have d: "?es =
           (if unmarshal_action D payload = Some ''subscribe''
            then [Log ''[DEBUG] Client %s is subscribing. Removing all old subscriptions.'']
                 @ map (\<lambda>t. Send_unsubscribe \<lparr>Topic = t, Client = ID c\<rparr>)
                     (fst (UnsubscribeAll_run (c\<lparr>Topics := ts\<rparr>) sched))
                 @ [invalid_data]
            else [invalid_data])"
    using assms
    by (auto simp: decode_fails_def listenRead_dispatch_def UnsubscribeAll_map
        split: option.splits if_splits)
  have i: "fst (UnsubscribeAll_run (c\<lparr>Topics := ts\<rparr>) (\<lambda>idx. 0)) = ts"
    by (simp add: UnsubscribeAll_run_idle)
  have n: "length (fst (UnsubscribeAll_run (c\<lparr>Topics := ts\<rparr>) sched)) = length ts"
    by (simp add: length_UnsubscribeAll_run)
  have q: "filter (\<lambda>e. is_subscribe e \<or> is_publish e \<or> is_unregister e
                       \<or> e = Ws_Close \<or> e = Close_send) ?es = []"
    by (simp add: d invalid_data_def filter_empty_conv)
  have l2: "listenRead_loop D c
              ((ts, sched, Read_payload payload) # (ts', sched', Read_payload payload') # rest) =
              (?es @ listenRead_dispatch D (c\<lparr>Topics := ts'\<rparr>) sched' payload'
               @ fst (listenRead_loop D c rest),
               snd (listenRead_loop D c rest))"
    by (simp only: listenRead_loop_payload fst_conv snd_conv)
  have m: "\<not> snd (listenRead_loop D c [(ts, sched, Read_payload payload)])"
    by (simp add: case_prod_beta)
  from d i n q listenRead_loop_payload [of D c ts sched payload rest] l2 m show ?thesis by blast
qed

theorem decode_failure_not_fatal_witness:
  "decode_fails
     \<lparr>unmarshal_action = (\<lambda>p. if p = ''garbage'' then None else Some ''publish''),
      unmarshal_subscriptions = (\<lambda>p. None), unmarshal_publish = (\<lambda>p. Some p)\<rparr> ''garbage''
   \<and> listenRead_loop
       \<lparr>unmarshal_action = (\<lambda>p. if p = ''garbage'' then None else Some ''publish''),
        unmarshal_subscriptions = (\<lambda>p. None), unmarshal_publish = (\<lambda>p. Some p)\<rparr>
       (NewClient ''c1'')
       [([''news''], (\<lambda>idx. 1), Read_payload ''garbage''),
        ([''news''], (\<lambda>idx. 1), Read_payload ''{}'')]
     = ([Log ''[ERROR] invalid data sent for subscription:%v'', Hub_Publish ''{}''], False)"
  using decode_failure_not_fatal
    [where D = "\<lparr>unmarshal_action = (\<lambda>p. if p = ''garbage'' then None else Some ''publish''),
                 unmarshal_subscriptions = (\<lambda>p. None), unmarshal_publish = (\<lambda>p. Some p)\<rparr>"
       and payload = "''garbage''" and c = "NewClient ''c1''" and ts = "[''news'']"
       and sched = "\<lambda>idx. 1" and sched' = "\<lambda>idx. 1"
       and ts' = "[''news'']" and payload' = "''{}''" and rest = "[]"]
  by (simp add: decode_fails_def listenRead_dispatch_def invalid_data_def)

lemma dispatch_no_unregister:
  "e \<in> set (listenRead_dispatch D c sched payload) \<Longrightarrow> \<not> is_unregister e"
  by (auto simp: listenRead_dispatch_def invalid_data_def UnsubscribeAll_map SubscribeMultiple_map
      split: option.splits if_splits)

lemma loop_left: "snd (listenRead_loop D c turns) = list_ex is_read_error turns"
  by (induction D c turns rule: listenRead_loop.induct) (simp_all add: case_prod_beta)

lemma loop_no_unregister: "filter is_unregister (fst (listenRead_loop D c turns)) = []"
proof (induction D c turns rule: listenRead_loop.induct)
  case (3 D c ts sched payload rest)
  have "filter is_unregister (listenRead_dispatch D (c\<lparr>Topics := ts\<rparr>) sched payload) = []"
    by (simp add: filter_empty_conv dispatch_no_unregister)
  with 3 show ?case by (simp add: case_prod_beta)
qed simp_all

text \<open>
  C7. The inbound pump leaves its loop exactly when a read returns an error (a failed
  read, an expired deadline, an oversized frame and a close by the peer all reach it
  as that). When it does, it sends exactly one Unregister, for this connection, as its
  last effect; while it has not, it has sent none.
\<close>

theorem unregister_on_exit:
  "snd (listenRead D c deadline_err turns) = list_ex is_read_error turns
   \<and> filter is_unregister (fst (listenRead D c deadline_err turns)) =
       (if snd (listenRead D c deadline_err turns) then [Send_unregister (ID c)] else [])
   \<and> (snd (listenRead D c deadline_err turns) \<longrightarrow>
        last (fst (listenRead D c deadline_err turns)) = Send_unregister (ID c))"
  using loop_no_unregister [of D c turns]
  by (simp add: listenRead_def case_prod_beta loop_left listenRead_deferred_def)

theorem unregister_on_exit_witness:
  "snd (listenRead
     \<lparr>unmarshal_action = (\<lambda>p. Some ''publish''), unmarshal_subscriptions = (\<lambda>p. None),
      unmarshal_publish = (\<lambda>p. Some p)\<rparr>
     (NewClient ''c1'') False
     [([], (\<lambda>idx. 1), Read_payload ''{}''), ([], (\<lambda>idx. 1), Read_error True)])
   \<and> fst (listenRead
     \<lparr>unmarshal_action = (\<lambda>p. Some ''publish''), unmarshal_subscriptions = (\<lambda>p. None),
      unmarshal_publish = (\<lambda>p. Some p)\<rparr>
     (NewClient ''c1'') False
     [([], (\<lambda>idx. 1), Read_payload ''{}''), ([], (\<lambda>idx. 1), Read_error True)])
     = [Ws_SetReadLimit 512, Ws_SetReadDeadline 30000000000, Ws_SetPongHandler 30000000000,
        Hub_Publish ''{}'',
        Log ''[DEBUG] read message error. Client probably closed connection:'',
        Log ''[DEBUG] Calling unregister from listenRead'', Send_unregister ''c1'']
   \<and> last (fst (listenRead
     \<lparr>unmarshal_action = (\<lambda>p. Some ''publish''), unmarshal_subscriptions = (\<lambda>p. None),
      unmarshal_publish = (\<lambda>p. Some p)\<rparr>
     (NewClient ''c1'') False
     [([], (\<lambda>idx. 1), Read_payload ''{}''), ([], (\<lambda>idx. 1), Read_error True)]))
     = Send_unregister ''c1''"
  using unregister_on_exit
    [where D = "\<lparr>unmarshal_action = (\<lambda>p. Some ''publish''),
                 unmarshal_subscriptions = (\<lambda>p. None), unmarshal_publish = (\<lambda>p. Some p)\<rparr>"
       and c = "NewClient ''c1''" and deadline_err = False
       and turns = "[([], (\<lambda>idx. 1), Read_payload ''{}''), ([], (\<lambda>idx. 1), Read_error True)]"]
  by (simp add: listenRead_def listenRead_dispatch_def listenRead_deferred_def NewClient_def
      maxMessageSize_def pongWait_def Second_def)

subsection \<open>Closing a connection\<close>

text \<open>Whenever the outbound pump returns, its last two effects stop the ticker and close the websocket.\<close>

lemma listenWrite_exit_closes:
  "fst (listenWrite turns :: 'm effect list \<times> bool) =
     NewTicker pingPeriod # fst (listenWrite_loop turns :: 'm effect list \<times> bool)
     @ (if snd (listenWrite turns :: 'm effect list \<times> bool) then [Ticker_Stop, Ws_Close] else [])"
  by (simp add: listenWrite_def case_prod_beta listenWrite_deferred_def)

text \<open>A new client's flag covers its channel, and \<^verbatim>\<open>close\<close> keeps it so.\<close>

lemma guard_ok_NewClient: "guard_ok (NewClient cid)"
  by (simp add: guard_ok_def NewClient_def make_chan_def)

lemma guard_ok_close:
  "close c ws_err = (Inr (c', es) :: panic + Client \<times> 'm effect list) \<Longrightarrow> guard_ok c'"
  by (auto simp: close_def guard_ok_def split: if_splits)

lemma close_closed: "closed c \<Longrightarrow> close c ws_err = Inr (c, [])"
  by (simp add: close_def)

lemma close_open:
  "guard_ok c \<Longrightarrow> \<not> closed c \<Longrightarrow>
   \<exists>c1 (es1 :: 'm effect list). close c ws_err = Inr (c1, es1) \<and> closed c1
     \<and> count_list es1 Close_send \<le> 1 \<and> count_list es1 Ws_Close = 1"
  by (cases ws_err) (simp_all add: close_def guard_ok_def)

lemma close_requests_closed:
  "closed c \<Longrightarrow>
   \<exists>es :: 'm effect list. close_requests c rs = Inr (c, es)
     \<and> count_list es Close_send = 0
     \<and> count_list es Ws_Close = count_list rs ListenWrite_exit"
proof (induction rs)
  case Nil
  then show ?case by simp
next
  case (Cons r rs)
  from Cons.IH [OF Cons.prems] obtain es :: "'m effect list" where
    es: "close_requests c rs = Inr (c, es)" "count_list es Close_send = 0"
    "count_list es Ws_Close = count_list rs ListenWrite_exit"
    by blast
  show ?case
  proof (cases r)
    case (Close_call ws_err)
    with Cons.prems es show ?thesis by (simp add: close_closed)
  next
    case ListenWrite_exit
    with es show ?thesis by (simp add: listenWrite_deferred_def)
  qed
qed

lemma close_requests_open:
  "guard_ok c \<Longrightarrow> \<not> closed c \<Longrightarrow>
   \<exists>c' (es :: 'm effect list). close_requests c rs = Inr (c', es)
     \<and> closed c' = list_ex is_close_call rs
     \<and> count_list es Close_send \<le> 1
     \<and> count_list es Ws_Close =
         (if list_ex is_close_call rs then 1 else 0) + count_list rs ListenWrite_exit"
proof (induction rs)
  case Nil
  then show ?case by simp
next
  case (Cons r rs)
  show ?case
  proof (cases r)
    case (Close_call ws_err)
    from close_open [OF Cons.prems, of ws_err] obtain c1 and es1 :: "'m effect list" where
      c1: "close c ws_err = Inr (c1, es1)" "closed c1"
      "count_list es1 Close_send \<le> 1" "count_list es1 Ws_Close = 1"
      by blast
    from close_requests_closed [OF c1(2), of rs] obtain es :: "'m effect list" where
      es: "close_requests c1 rs = Inr (c1, es)" "count_list es Close_send = 0"
      "count_list es Ws_Close = count_list rs ListenWrite_exit"
      by blast
    from c1 es Close_call show ?thesis by simp
  next
    case ListenWrite_exit
    from Cons.IH [OF Cons.prems] obtain c' and es :: "'m effect list" where
      "close_requests c rs = Inr (c', es)" "closed c' = list_ex is_close_call rs"
      "count_list es Close_send \<le> 1"
      "count_list es Ws_Close =
         (if list_ex is_close_call rs then 1 else 0) + count_list rs ListenWrite_exit"
      by blast
    with ListenWrite_exit show ?thesis by (simp add: listenWrite_deferred_def)
  qed
qed

text \<open>
  C4 (as amended). For every sequence of close requests, taken one after the other, on a
  connection whose flag covers its send channel (as it does from \<^verbatim>\<open>NewClient\<close> on):
  no request panics, the send channel is closed at most once, and the calls of
  \<^verbatim>\<open>close\<close> together call the websocket's \<^verbatim>\<open>Close\<close> at most once, every call of
  \<^verbatim>\<open>close\<close> after the first doing nothing at all. The exit of the outbound pump is
  not behind the guard: each adds one more call of the websocket's \<^verbatim>\<open>Close\<close>.
\<close>

theorem close_guard:
  assumes "guard_ok c"
  shows "\<exists>c' (es :: 'm effect list). close_requests c rs = Inr (c', es)
     \<and> count_list es Close_send \<le> 1
     \<and> count_list es Ws_Close =
         (if \<not> closed c \<and> list_ex is_close_call rs then 1 else 0)
         + count_list rs ListenWrite_exit
     \<and> (list_ex is_close_call rs \<longrightarrow>
          (\<forall>ws_err. close c' ws_err = (Inr (c', []) :: panic + Client \<times> 'm effect list)))"
proof (cases "closed c")
  case True
  from close_requests_closed [OF True, of rs] obtain es :: "'m effect list" where
    "close_requests c rs = Inr (c, es)" "count_list es Close_send = 0"
    "count_list es Ws_Close = count_list rs ListenWrite_exit"
    by blast
  with True show ?thesis by (simp add: close_closed)
next
  case False
  from close_requests_open [OF assms False, of rs] obtain c' and es :: "'m effect list" where
    r: "close_requests c rs = Inr (c', es)" "closed c' = list_ex is_close_call rs"
    "count_list es Close_send \<le> 1"
    "count_list es Ws_Close =
       (if list_ex is_close_call rs then 1 else 0) + count_list rs ListenWrite_exit"
    by blast
  from r(2) have "list_ex is_close_call rs \<longrightarrow>
      (\<forall>ws_err. close c' ws_err = (Inr (c', []) :: panic + Client \<times> 'm effect list))"
    by (simp add: close_closed)
  with r False show ?thesis by simp
qed

theorem close_guard_witness:
  "guard_ok (NewClient ''c1'')
   \<and> (\<exists>c' (es :: unit effect list).
        close_requests (NewClient ''c1'') [Close_call False, Close_call False, Close_call True]
          = Inr (c', es)
        \<and> count_list es Close_send \<le> 1
        \<and> count_list es Ws_Close = 1
        \<and> (\<forall>ws_err. close c' ws_err = (Inr (c', []) :: panic + Client \<times> unit effect list)))"
  using close_guard [where c = "NewClient ''c1''"
      and rs = "[Close_call False, Close_call False, Close_call True]", where ?'m = unit]
  by (simp add: guard_ok_def NewClient_def make_chan_def)

text \<open>
  The claim as it was stated fails when the outbound pump exits after a call of
  \<^verbatim>\<open>close\<close>: the request after the first does act, it closes the websocket a
  second time.
\<close>

theorem close_guard_counterexample:
  "close_requests (NewClient ''c1'') [Close_call False, ListenWrite_exit]
     = Inr (\<lparr>ID = ''c1'', closed = True, send = \<lparr>capacity = 256, is_closed = True\<rparr>,
             Topics = []\<rparr>,
            [Ws_Close, Log ''[DEBUG] websocket closed.'',
             Log ''[DEBUG] closing connection's send channel.'', Close_send,
             Ticker_Stop, Ws_Close :: unit effect])
   \<and> count_list [Ws_Close, Log ''[DEBUG] websocket closed.'',
             Log ''[DEBUG] closing connection's send channel.'', Close_send,
             Ticker_Stop, Ws_Close :: unit effect] Ws_Close = 2"
  by (simp add: close_def NewClient_def make_chan_def listenWrite_deferred_def)

text \<open>
  C10. When \<^verbatim>\<open>close\<close> is called with the flag unset and closing the websocket fails,
  the send channel is not closed and the flag is set all the same. Every later call of
  \<^verbatim>\<open>close\<close> then does nothing, so no sequence of close requests closes the send
  channel any more. A call of \<^verbatim>\<open>close\<close> with the flag unset closes the send channel
  only if closing the websocket succeeded.
\<close>

theorem failed_transport_close:
  assumes "\<not> closed c"
  shows "close c True = Inr (c\<lparr>closed := True\<rparr>,
           [Ws_Close, Log ''[DEBUG] websocket was already closed:'' :: 'm effect])
     \<and> send (c\<lparr>closed := True\<rparr>) = send c
     \<and> close (c\<lparr>closed := True\<rparr>) ws_err = Inr (c\<lparr>closed := True\<rparr>, [] :: 'm effect list)
     \<and> (\<exists>es :: 'm effect list.
          close_requests (c\<lparr>closed := True\<rparr>) rs = Inr (c\<lparr>closed := True\<rparr>, es)
          \<and> count_list es Close_send = 0)
     \<and> ((\<exists>c' (es :: 'm effect list). close c ws_err = Inr (c', es) \<and> Close_send \<in> set es)
          \<longleftrightarrow> \<not> ws_err \<and> \<not> is_closed (send c))"
proof -
  have a: "close c True = Inr (c\<lparr>closed := True\<rparr>,
           [Ws_Close, Log ''[DEBUG] websocket was already closed:'' :: 'm effect])"
    using assms by (simp add: close_def)
  have b: "close (c\<lparr>closed := True\<rparr>) ws_err = Inr (c\<lparr>closed := True\<rparr>, [] :: 'm effect list)"
    by (simp add: close_def)
  have "closed (c\<lparr>closed := True\<rparr>)" by simp
  from close_requests_closed [OF this, of rs]
  have d: "\<exists>es :: 'm effect list.
          close_requests (c\<lparr>closed := True\<rparr>) rs = Inr (c\<lparr>closed := True\<rparr>, es)
          \<and> count_list es Close_send = 0"
    by blast
  have e: "(\<exists>c' (es :: 'm effect list). close c ws_err = Inr (c', es) \<and> Close_send \<in> set es)
          \<longleftrightarrow> \<not> ws_err \<and> \<not> is_closed (send c)"
    using assms by (auto simp: close_def)
  from a b d e show ?thesis by simp
qed

theorem failed_transport_close_witness:
  "\<not> closed (NewClient ''c1'')
   \<and> close (NewClient ''c1'') True
       = Inr (\<lparr>ID = ''c1'', closed = True, send = \<lparr>capacity = 256, is_closed = False\<rparr>,
               Topics = []\<rparr>,
              [Ws_Close, Log ''[DEBUG] websocket was already closed:'' :: unit effect])
   \<and> close_requests (NewClient ''c1'') [Close_call True, Close_call False, ListenWrite_exit]
       = Inr (\<lparr>ID = ''c1'', closed = True, send = \<lparr>capacity = 256, is_closed = False\<rparr>,
               Topics = []\<rparr>,
              [Ws_Close, Log ''[DEBUG] websocket was already closed:'', Ticker_Stop,
               Ws_Close :: unit effect])"
  using failed_transport_close [where c = "NewClient ''c1''" and ws_err = False
      and rs = "[Close_call False, ListenWrite_exit]", where ?'m = unit]
  by (simp add: close_def NewClient_def make_chan_def listenWrite_deferred_def)

end
